theory Spec2Isabelle
  imports Complex_Main "HOL-Library.AList"
begin

section \<open>Data model of server.js\<close>

text \<open>
  Times are the millisecond values of JavaScript \<open>Date\<close> objects; subtracting two of them
  (\<open>now - room.lastActivity\<close>) gives a signed difference, so they are integers.
  Socket ids, room codes and user names are strings.  Room objects live in a store
  (\<open>objects\<close>), because the \<open>disconnect\<close> handler captures the room \<^emph>\<open>object\<close> in a timer
  closure while the \<open>rooms\<close> map may meanwhile drop or replace the entry of its code.
\<close>

type_synonym time = int
type_synonym sockid = string
type_synonym addr = nat

text \<open>A value of a JSON request body: \<open>translationDirection\<close> is stored unvalidated.\<close>

datatype jsvalue = JUndefined | JNull | JBool bool | JNum int | JStr string | JObj

text \<open>An element of \<open>room.users\<close>: \<open>{ id: socket.id, name: userName }\<close>.\<close>

record user =
  id' :: sockid
  name :: string

record room =
  translationDirection :: jsvalue
  users :: "user list"
  createdAt :: time
  lastActivity :: time

text \<open>
  The closures handed to \<open>setTimeout\<close> and \<open>setInterval\<close>, with the variables they capture.
  The departure check captures the room object, the connection's \<open>currentRoom\<close>, the
  \<open>userIndex\<close> found at disconnect time, the user object (of which it only reads \<open>name\<close>, a
  field no code ever assigns after creation) and \<open>socket.id\<close>.
\<close>

datatype callback =
    DepartureCheck addr string nat string sockid
  | EmptyRoomCheck string
  | RoomCleanup

text \<open>Where an emit goes, what it carries, and the other observable actions.\<close>

datatype target =
    ToSocket sockid
  | ToRoom string
  | ToOthers string sockid
  | HttpReply

datatype message =
    ErrorMsg string
  | RoomJoined string jsvalue "user list"
  | UserJoined sockid string "user list"
  | HeartbeatAck
  | TranslatedSpeech string string sockid
  | UserLeft sockid string "user list"
  | RoomCode string
  | RoomExists bool

datatype action =
    Emit target message
  | GenerateContent string
  | Delay nat

record server =
  rooms :: "(string \<times> addr) list"
  objects :: "addr \<Rightarrow> room"
  nextAddr :: addr
  currentRoom :: "sockid \<Rightarrow> string option"
  channels :: "string \<Rightarrow> sockid set"
  timers :: "(time \<times> callback) list"

text \<open>
  Who receives an emit, given the socket.io channel membership at delivery:
  \<open>socket.emit\<close>, \<open>io.to(code).emit\<close> and \<open>socket.to(code).emit\<close> (everyone in the channel
  but the emitting socket).
\<close>

fun recipients :: "(string \<Rightarrow> sockid set) \<Rightarrow> target \<Rightarrow> sockid set" where
  "recipients ch (ToSocket sid) = {sid}"
| "recipients ch (ToRoom roomCode) = ch roomCode"
| "recipients ch (ToOthers roomCode sid) = ch roomCode - {sid}"
| "recipients ch HttpReply = {}"

section \<open>Array and string helpers\<close>

text \<open>\<open>Array.prototype.findIndex\<close>; \<open>None\<close> is the result \<open>-1\<close>.\<close>

fun findIndex :: "('a \<Rightarrow> bool) \<Rightarrow> 'a list \<Rightarrow> nat option" where
  "findIndex p [] = None"
| "findIndex p (x # xs) = (if p x then Some 0 else map_option Suc (findIndex p xs))"

text \<open>
  \<open>Array.prototype.splice(start, deleteCount)\<close> for a start that is not negative: a start
  at or beyond the length removes nothing.
\<close>

definition splice :: "nat \<Rightarrow> nat \<Rightarrow> 'a list \<Rightarrow> 'a list" where
  "splice start deleteCount xs = take start xs @ drop (start + deleteCount) xs"

definition digit :: "nat \<Rightarrow> char" where
  "digit n = ''0123456789'' ! n"

text \<open>\<open>Number.prototype.toString\<close> on a natural number.\<close>

function toString :: "nat \<Rightarrow> string" where
  "toString n = (if n < 10 then [digit n] else toString (n div 10) @ [digit (n mod 10)])"
  by pat_completeness auto
termination
  by (relation "measure (\<lambda>n. n)") auto

declare toString.simps [simp del]

definition isWhiteSpace :: "char \<Rightarrow> bool" where
  "isWhiteSpace c = (c \<in> set [CHR 0x09, CHR 0x0A, CHR 0x0B, CHR 0x0C, CHR 0x0D, CHR 0x20])"

text \<open>\<open>String.prototype.trim\<close>, on the ASCII white space and line terminators.\<close>

definition trim :: "string \<Rightarrow> string" where
  "trim s = rev (dropWhile isWhiteSpace (rev (dropWhile isWhiteSpace s)))"

section \<open>generateRoomCode and translateText\<close>

text \<open>
  \<open>Math.floor(100000 + Math.random() * 900000).toString()\<close>; the draw of \<open>Math.random()\<close>,
  a number from 0 up to but not including 1, is the argument.
\<close>

definition generateRoomCode :: "real \<Rightarrow> string" where
  "generateRoomCode random = toString (nat \<lfloor>100000 + random * 900000\<rfloor>)"

definition maxRetries :: nat where
  "maxRetries = 3"

text \<open>
  The remote model: for the number of the attempt (from 0) and the prompt, either the
  \<open>message\<close> of the error thrown inside the \<open>try\<close> block, or the text of the response.
\<close>

type_synonym remote = "nat \<Rightarrow> string \<Rightarrow> string + string"

definition prompt :: "string \<Rightarrow> string \<Rightarrow> string \<Rightarrow> string" where
  "prompt text fromLang toLang =
     ''Translate the following text from '' @ fromLang @ '' to '' @ toLang @ ''. '' @ [CHR 0x0A] @
     ''      Return only the translated text without any explanations:'' @ [CHR 0x0A] @
     ''      '' @ [CHR 0x22] @ text @ [CHR 0x22]"

text \<open>
  The \<open>while (retries < maxRetries)\<close> loop.  Every iteration makes one remote call, and
  \<open>retries\<close> counts the failed ones, so the call of an iteration has number \<open>retries\<close>.
  Leaving the loop by its condition returns \<open>undefined\<close>, which is \<open>None\<close>.
\<close>

function translateText_loop ::
  "remote \<Rightarrow> string \<Rightarrow> string \<Rightarrow> string \<Rightarrow> nat \<Rightarrow> string option \<times> action list" where
  "translateText_loop remote text fromLang toLang retries =
     (if retries < maxRetries then
        (case remote retries (prompt text fromLang toLang) of
           Inr translation \<Rightarrow>
             (Some (trim translation), [GenerateContent (prompt text fromLang toLang)])
         | Inl msg \<Rightarrow>
             (if retries + 1 \<ge> maxRetries then
                (Some (''[Translation unavailable: '' @ msg @ '']''),
                 [GenerateContent (prompt text fromLang toLang)])
              else
                (fst (translateText_loop remote text fromLang toLang (retries + 1)),
                 GenerateContent (prompt text fromLang toLang) # Delay (1000 * (retries + 1)) #
                 snd (translateText_loop remote text fromLang toLang (retries + 1)))))
      else (None, []))"
  by pat_completeness auto
termination
  by (relation "measure (\<lambda>(remote, text, fromLang, toLang, retries). maxRetries - retries)") auto

declare translateText_loop.simps [simp del]

definition translateText :: "remote \<Rightarrow> string \<Rightarrow> string \<Rightarrow> string \<Rightarrow> string option \<times> action list" where
  "translateText remote text fromLang toLang = translateText_loop remote text fromLang toLang 0"

section \<open>HTTP endpoints\<close>

text \<open>
  \<open>POST /api/create-room\<close>: \<open>rooms.set\<close> of a fresh room object (allocated at \<open>nextAddr\<close>)
  under the generated code; \<open>Map.prototype.set\<close> replaces the value of a key the map has
  and appends a key it has not.  The two \<open>new Date()\<close> readings are the arguments \<open>now\<close> and
  \<open>now'\<close>.
\<close>

definition create_room :: "jsvalue \<Rightarrow> real \<Rightarrow> time \<Rightarrow> time \<Rightarrow> server \<Rightarrow> server \<times> action list" where
  "create_room direction random now now' s =
     (let roomCode = generateRoomCode random;
          a = nextAddr s
      in (s\<lparr>rooms := AList.update roomCode a (rooms s),
            objects := (objects s)
              (a := \<lparr>translationDirection = direction, users = [], createdAt = now,
                     lastActivity = now'\<rparr>),
            nextAddr := Suc a\<rparr>,
          [Emit HttpReply (RoomCode roomCode)]))"

text \<open>\<open>GET /api/check-room/:roomCode\<close>: \<open>rooms.has(roomCode)\<close>.\<close>

definition check_room :: "string \<Rightarrow> server \<Rightarrow> bool" where
  "check_room roomCode s = (map_of (rooms s) roomCode \<noteq> None)"

section \<open>Socket handlers\<close>

text \<open>
  \<open>join-room\<close>: the reconnection branch overwrites the \<open>id\<close> of the first entry with the
  user name, the other branch pushes a new entry.  The \<open>disconnect\<close> listener that the handler
  adds only writes a log line.
\<close>

definition join_users :: "sockid \<Rightarrow> string \<Rightarrow> user list \<Rightarrow> user list" where
  "join_users sid userName us =
     (case findIndex (\<lambda>u. name u = userName) us of
        Some existingUserIndex \<Rightarrow> us[existingUserIndex := (us ! existingUserIndex)\<lparr>id' := sid\<rparr>]
      | None \<Rightarrow> us @ [\<lparr>id' = sid, name = userName\<rparr>])"

definition join_room :: "sockid \<Rightarrow> string \<Rightarrow> string \<Rightarrow> time \<Rightarrow> server \<Rightarrow> server \<times> action list" where
  "join_room sid roomCode userName now s =
     (case map_of (rooms s) roomCode of
        None \<Rightarrow> (s, [Emit (ToSocket sid) (ErrorMsg ''Room not found'')])
      | Some a \<Rightarrow>
          (let r = objects s a;
               us = join_users sid userName (users r)
           in (s\<lparr>objects := (objects s)(a := r\<lparr>users := us, lastActivity := now\<rparr>),
                 currentRoom := (currentRoom s)(sid := Some roomCode),
                 channels := (channels s)(roomCode := insert sid (channels s roomCode))\<rparr>,
               [Emit (ToSocket sid) (RoomJoined roomCode (translationDirection r) us),
                Emit (ToRoom roomCode) (UserJoined sid userName us)])))"

definition heartbeat :: "sockid \<Rightarrow> string \<Rightarrow> time \<Rightarrow> server \<Rightarrow> server \<times> action list" where
  "heartbeat sid roomCode now s =
     (case map_of (rooms s) roomCode of
        None \<Rightarrow> (s, [])
      | Some a \<Rightarrow>
          (s\<lparr>objects := (objects s)(a := (objects s a)\<lparr>lastActivity := now\<rparr>)\<rparr>,
           [Emit (ToSocket sid) HeartbeatAck]))"

text \<open>
  The language pair of a room's direction: the \<open>if (room.translationDirection === 'en-to-hi')\<close>
  of the \<open>speech-data\<close> handler, with its \<open>else\<close>.
\<close>

definition languages :: "jsvalue \<Rightarrow> string \<times> string" where
  "languages direction =
     (if direction = JStr ''en-to-hi'' then (''English'', ''Hindi'') else (''Hindi'', ''English''))"

text \<open>
  \<open>speech-data\<close>.  The handler writes \<open>lastActivity\<close> before it awaits the gateway and
  touches no state afterwards; its emit is addressed by room code and sender.  A gateway
  result \<open>undefined\<close> would make \<open>translatedText.substring\<close> throw inside the \<open>try\<close>, which
  the \<open>catch\<close> reports to the sender.
\<close>

definition speech_data ::
  "sockid \<Rightarrow> string \<Rightarrow> string \<Rightarrow> remote \<Rightarrow> time \<Rightarrow> server \<Rightarrow> server \<times> action list" where
  "speech_data sid roomCode text remote now s =
     (case map_of (rooms s) roomCode of
        None \<Rightarrow> (s, [Emit (ToSocket sid) (ErrorMsg ''Room not found'')])
      | Some a \<Rightarrow>
          (let r = objects s a;
               s' = s\<lparr>objects := (objects s)(a := r\<lparr>lastActivity := now\<rparr>)\<rparr>;
               fromLang = fst (languages (translationDirection r));
               toLang = snd (languages (translationDirection r));
               res = translateText remote text fromLang toLang
           in (case fst res of
                 Some translatedText \<Rightarrow>
                   (s', snd res @
                        [Emit (ToOthers roomCode sid) (TranslatedSpeech text translatedText sid)])
               | None \<Rightarrow>
                   (s', snd res @
                        [Emit (ToSocket sid) (ErrorMsg ''Translation failed. Please try again.'')]))))"

text \<open>
  \<open>disconnect\<close>.  socket.io has taken the socket out of every channel when the handler
  runs.  \<open>if (currentRoom)\<close> is false for \<open>null\<close> and for the empty string.  The handler
  only schedules the departure check, 20 seconds later.
\<close>

definition disconnect :: "sockid \<Rightarrow> time \<Rightarrow> server \<Rightarrow> server \<times> action list" where
  "disconnect sid now s =
     (let s0 = s\<lparr>channels := (\<lambda>c. channels s c - {sid})\<rparr> in
      case currentRoom s sid of
        None \<Rightarrow> (s0, [])
      | Some roomCode \<Rightarrow>
          if roomCode = [] then (s0, [])
          else
            (case map_of (rooms s) roomCode of
               None \<Rightarrow> (s0, [])
             | Some a \<Rightarrow>
                 (case findIndex (\<lambda>u. id' u = sid) (users (objects s a)) of
                    None \<Rightarrow> (s0, [])
                  | Some userIndex \<Rightarrow>
                      (s0\<lparr>timers := timers s0 @
                            [(now + 20000,
                              DepartureCheck a roomCode userIndex
                                (name (users (objects s a) ! userIndex)) sid)]\<rparr>,
                       []))))"

section \<open>Timer callbacks\<close>

text \<open>
  The departure check reads \<open>room.users\<close> of the captured room object as it is when the
  timer fires, and splices at the captured \<open>userIndex\<close>.
\<close>

definition departure_check ::
  "addr \<Rightarrow> string \<Rightarrow> nat \<Rightarrow> string \<Rightarrow> sockid \<Rightarrow> time \<Rightarrow> server \<Rightarrow> server \<times> action list" where
  "departure_check a roomCode userIndex userName sid now s =
     (let r = objects s a;
          reconnected = list_ex (\<lambda>u. name u = userName \<and> id' u \<noteq> sid) (users r)
      in if \<not> reconnected then
           (let us = splice userIndex 1 (users r);
                s1 = s\<lparr>objects := (objects s)(a := r\<lparr>users := us\<rparr>)\<rparr>
            in ((if length us = 0
                 then s1\<lparr>timers := timers s1 @ [(now + 300000, EmptyRoomCheck roomCode)]\<rparr>
                 else s1),
                [Emit (ToRoom roomCode) (UserLeft sid userName us)]))
         else (s, []))"

text \<open>\<open>if (rooms.get(currentRoom)?.users.length === 0) rooms.delete(currentRoom)\<close>.\<close>

definition empty_room_check :: "string \<Rightarrow> server \<Rightarrow> server" where
  "empty_room_check roomCode s =
     (case map_of (rooms s) roomCode of
        None \<Rightarrow> s
      | Some a \<Rightarrow>
          if length (users (objects s a)) = 0
          then s\<lparr>rooms := AList.delete roomCode (rooms s)\<rparr>
          else s)"

text \<open>
  The body of the \<open>setInterval\<close> callback: the \<open>for ... of rooms.entries()\<close> loop, deleting
  from the map as it goes.  The loop deletes only the entry it is visiting, which does not
  disturb the iteration of a \<open>Map\<close>, so it visits the entries the map had when it started.
\<close>

definition expired :: "time \<Rightarrow> room \<Rightarrow> bool" where
  "expired now r = (now - lastActivity r > 3600000 \<and> length (users r) = 0)"

fun cleanup_loop ::
  "time \<Rightarrow> (addr \<Rightarrow> room) \<Rightarrow> (string \<times> addr) list \<Rightarrow> (string \<times> addr) list \<Rightarrow> (string \<times> addr) list" where
  "cleanup_loop now objs [] m = m"
| "cleanup_loop now objs ((roomCode, a) # entries) m =
     cleanup_loop now objs entries
       (if expired now (objs a) then AList.delete roomCode m else m)"

definition cleanup :: "time \<Rightarrow> server \<Rightarrow> server" where
  "cleanup now s = s\<lparr>rooms := cleanup_loop now (objects s) (rooms s) (rooms s)\<rparr>"

text \<open>
  Firing the pending timer at position \<open>i\<close> at time \<open>now\<close>: possible once it is due.  A
  timeout leaves the queue; the interval is armed again, 30 minutes on.
\<close>

definition fire :: "nat \<Rightarrow> time \<Rightarrow> server \<Rightarrow> (server \<times> action list) option" where
  "fire i now s =
     (if i < length (timers s) \<and> fst (timers s ! i) \<le> now then
        (let s' = s\<lparr>timers := take i (timers s) @ drop (Suc i) (timers s)\<rparr> in
         case snd (timers s ! i) of
           DepartureCheck a roomCode userIndex userName sid \<Rightarrow>
             Some (departure_check a roomCode userIndex userName sid now s')
         | EmptyRoomCheck roomCode \<Rightarrow> Some (empty_room_check roomCode s', [])
         | RoomCleanup \<Rightarrow>
             Some ((cleanup now s')\<lparr>timers := timers s' @ [(now + 1800000, RoomCleanup)]\<rparr>, []))
      else None)"

section \<open>The event loop\<close>

datatype event =
    CreateRoom jsvalue real time
  | CheckRoom string
  | Connection sockid
  | JoinRoom sockid string string
  | Heartbeat sockid string
  | SpeechData sockid string string remote
  | ConnectionStatus sockid string string
  | Disconnect sockid
  | Timeout nat

fun step :: "time \<Rightarrow> event \<Rightarrow> server \<Rightarrow> (server \<times> action list) option" where
  "step now (CreateRoom direction random now') s = Some (create_room direction random now now' s)"
| "step now (CheckRoom roomCode) s = Some (s, [Emit HttpReply (RoomExists (check_room roomCode s))])"
| "step now (Connection sid) s = Some (s\<lparr>currentRoom := (currentRoom s)(sid := None)\<rparr>, [])"
| "step now (JoinRoom sid roomCode userName) s = Some (join_room sid roomCode userName now s)"
| "step now (Heartbeat sid roomCode) s = Some (heartbeat sid roomCode now s)"
| "step now (SpeechData sid roomCode text remote) s = Some (speech_data sid roomCode text remote now s)"
| "step now (ConnectionStatus sid roomCode status) s = Some (s, [])"
| "step now (Disconnect sid) s = Some (disconnect sid now s)"
| "step now (Timeout i) s = fire i now s"

text \<open>A run: the events in the order the event loop takes them, each with its clock reading.\<close>

fun exec :: "(time \<times> event) list \<Rightarrow> server \<Rightarrow> (server \<times> action list) option" where
  "exec [] s = Some (s, [])"
| "exec ((now, e) # es) s =
     (case step now e s of
        None \<Rightarrow> None
      | Some (s', out) \<Rightarrow> map_option (\<lambda>(s'', out'). (s'', out @ out')) (exec es s'))"

text \<open>The server as \<open>server.js\<close> starts it at time \<open>t0\<close>: no room, the cleanup interval armed.\<close>

definition blank :: room where
  "blank = \<lparr>translationDirection = JUndefined, users = [], createdAt = 0, lastActivity = 0\<rparr>"

definition start :: "time \<Rightarrow> server" where
  "start t0 =
     \<lparr>rooms = [], objects = (\<lambda>a. blank), nextAddr = 0, currentRoom = (\<lambda>sid. None),
      channels = (\<lambda>c. {}), timers = [(t0 + 1800000, RoomCleanup)]\<rparr>"

text \<open>
  Observations of a state: the room object registered under a code, and the sockets in
  the channel of a code.
\<close>

definition room_of :: "string \<Rightarrow> server \<Rightarrow> room option" where
  "room_of roomCode s = map_option (objects s) (map_of (rooms s) roomCode)"

definition members :: "string \<Rightarrow> server \<Rightarrow> sockid set" where
  "members roomCode s = channels s roomCode"

definition run :: "(time \<times> event) list \<Rightarrow> server option" where
  "run es = map_option fst (exec es (start 0))"

definition emitted :: "(time \<times> event) list \<Rightarrow> action list option" where
  "emitted es = map_option snd (exec es (start 0))"

text \<open>The state a run ends in (the starting state, should the run not be possible).\<close>

definition after :: "(time \<times> event) list \<Rightarrow> server" where
  "after es = (case run es of Some s \<Rightarrow> s | None \<Rightarrow> start 0)"

text \<open>
  The representation invariant: a \<open>Map\<close> holds every key once, and no room lists a name
  twice.
\<close>

definition well_formed :: "server \<Rightarrow> bool" where
  "well_formed s =
     (distinct (map fst (rooms s)) \<and> (\<forall>a. distinct (map name (users (objects s a)))))"

section \<open>Runs used as concrete inputs\<close>

text \<open>
  The server starts at time 0.  The draw 0 of \<open>Math.random()\<close> gives the code 100000, the
  draw 1/2 gives 550000 and the draw 1/4 gives 325000.  The cleanup interval is the pending
  timer at position 0; a departure check scheduled next is at position 1.
\<close>

definition joined_run :: "(time \<times> event) list" where
  "joined_run =
    [(1000, CreateRoom (JStr ''en-to-hi'') 0 1000),
     (2000, Connection ''sa''),
     (2000, JoinRoom ''sa'' ''100000'' ''A''),
     (3000, Connection ''sb''),
     (3000, JoinRoom ''sb'' ''100000'' ''B'')]"

text \<open>
  A, B and C are in the room; A disconnects, one second later B disconnects, nobody
  rejoins, and the two departure checks fire when due.
\<close>

definition stale_index_run :: "(time \<times> event) list" where
  "stale_index_run = joined_run @
    [(4000, Connection ''sc''),
     (4000, JoinRoom ''sc'' ''100000'' ''C''),
     (10000, Disconnect ''sa''),
     (11000, Disconnect ''sb''),
     (30000, Timeout 1),
     (31000, Timeout 1)]"

text \<open>
  A room of two: A and B disconnect one second apart, nobody rejoins, and the two departure
  checks fire when due.
\<close>

definition both_leave_run :: "(time \<times> event) list" where
  "both_leave_run = joined_run @
    [(10000, Disconnect ''sa''),
     (11000, Disconnect ''sb''),
     (30000, Timeout 1),
     (31000, Timeout 1)]"

text \<open>
  X, Y and N are in the room and disconnect one second apart; N rejoins under the new
  connection \<open>s2\<close> one second after its disconnect; the three departure checks fire when due.
\<close>

definition rejoin_run :: "(time \<times> event) list" where
  "rejoin_run =
    [(1000, CreateRoom (JStr ''en-to-hi'') 0 1000),
     (2000, Connection ''sx''),
     (2000, JoinRoom ''sx'' ''100000'' ''X''),
     (3000, Connection ''sy''),
     (3000, JoinRoom ''sy'' ''100000'' ''Y''),
     (4000, Connection ''s1''),
     (4000, JoinRoom ''s1'' ''100000'' ''N''),
     (10000, Disconnect ''sx''),
     (11000, Disconnect ''sy''),
     (12000, Disconnect ''s1''),
     (13000, Connection ''s2''),
     (13000, JoinRoom ''s2'' ''100000'' ''N''),
     (30000, Timeout 1),
     (31000, Timeout 1),
     (32000, Timeout 1)]"

text \<open>The only user of a room disconnects.\<close>

definition leave_run :: "(time \<times> event) list" where
  "leave_run =
    [(1000, CreateRoom (JStr ''en-to-hi'') 0 1000),
     (2000, Connection ''sa''),
     (2000, JoinRoom ''sa'' ''100000'' ''A''),
     (10000, Disconnect ''sa'')]"

text \<open>
  A room is created and never joined; \<open>check-room\<close> is asked 300001 ms after the creation
  and again after the first cleanup sweep.
\<close>

definition idle_run :: "(time \<times> event) list" where
  "idle_run =
    [(1000, CreateRoom (JStr ''en-to-hi'') 0 1000),
     (301001, CheckRoom ''100000''),
     (1800000, Timeout 0),
     (1800001, CheckRoom ''100000'')]"

text \<open>Three rooms: one old and empty, one old with a user, one empty and recent.\<close>

definition sweep_run :: "(time \<times> event) list" where
  "sweep_run =
    [(1000, CreateRoom (JStr ''en-to-hi'') 0 1000),
     (2000, CreateRoom (JStr ''hi-to-en'') (1 / 2) 2000),
     (3000, Connection ''sa''),
     (3000, JoinRoom ''sa'' ''550000'' ''A''),
     (1800000, Timeout 0),
     (3000000, CreateRoom JUndefined (1 / 4) 3000000)]"

text \<open>A room created without a direction in the request body.\<close>

definition undirected_run :: "(time \<times> event) list" where
  "undirected_run =
    [(1000, CreateRoom JUndefined 0 1000),
     (2000, Connection ''sa''),
     (2000, JoinRoom ''sa'' ''100000'' ''A'')]"

section \<open>The retry loop\<close>

lemma loop_last:
  "Suc retries = maxRetries \<Longrightarrow> remote retries (prompt text fromLang toLang) = Inl msg \<Longrightarrow>
   translateText_loop remote text fromLang toLang retries =
     (Some (''[Translation unavailable: '' @ msg @ '']''),
      [GenerateContent (prompt text fromLang toLang)])"
  by (subst translateText_loop.simps) auto

lemma loop_retry:
  "Suc retries < maxRetries \<Longrightarrow> remote retries (prompt text fromLang toLang) = Inl msg \<Longrightarrow>
   translateText_loop remote text fromLang toLang retries =
     (fst (translateText_loop remote text fromLang toLang (Suc retries)),
      GenerateContent (prompt text fromLang toLang) # Delay (1000 * Suc retries) #
      snd (translateText_loop remote text fromLang toLang (Suc retries)))"
  by (subst translateText_loop.simps) auto

lemma loop_success:
  "retries < maxRetries \<Longrightarrow> remote retries (prompt text fromLang toLang) = Inr translation \<Longrightarrow>
   translateText_loop remote text fromLang toLang retries =
     (Some (trim translation), [GenerateContent (prompt text fromLang toLang)])"
  by (subst translateText_loop.simps) auto

lemma loop_returns:
  "retries < maxRetries \<Longrightarrow> \<exists>t. fst (translateText_loop remote tx fromLang toLang retries) = Some t"
proof (induction remote tx fromLang toLang retries rule: translateText_loop.induct)
  case (1 remote tx fromLang toLang retries)
  show ?case
  proof (cases "remote retries (prompt tx fromLang toLang)")
    case (Inr translation)
    with "1.prems" show ?thesis by (simp add: loop_success)
  next
    case (Inl msg)
    show ?thesis
    proof (cases "Suc retries < maxRetries")
      case True
      with "1.IH"[OF "1.prems" Inl] have "\<exists>t. fst (translateText_loop remote tx fromLang toLang (retries + 1)) = Some t"
        by simp
      with True Inl show ?thesis by (simp add: loop_retry)
    next
      case False
      with "1.prems" have "Suc retries = maxRetries" by simp
      with Inl show ?thesis by (simp add: loop_last)
    qed
  qed
qed

lemma translateText_returns: "\<exists>t. fst (translateText remote tx fromLang toLang) = Some t"
  unfolding translateText_def by (rule loop_returns) (simp add: maxRetries_def)

lemma loop_unfold:
  "translateText_loop remote tx fromLang toLang retries =
     (if retries < maxRetries then
        (case remote retries (prompt tx fromLang toLang) of
           Inr translation \<Rightarrow> (Some (trim translation), [GenerateContent (prompt tx fromLang toLang)])
         | Inl msg \<Rightarrow>
             (if Suc retries < maxRetries then
                (fst (translateText_loop remote tx fromLang toLang (Suc retries)),
                 GenerateContent (prompt tx fromLang toLang) # Delay (1000 * Suc retries) #
                 snd (translateText_loop remote tx fromLang toLang (Suc retries)))
              else
                (Some (''[Translation unavailable: '' @ msg @ '']''),
                 [GenerateContent (prompt tx fromLang toLang)])))
      else (None, []))"
  by (subst translateText_loop.simps) (auto split: sum.splits)

lemma loop_actions:
  "x \<in> set (snd (translateText_loop remote tx fromLang toLang retries)) \<Longrightarrow>
   x = GenerateContent (prompt tx fromLang toLang) \<or> (\<exists>d. x = Delay d)"
proof (induction "maxRetries - retries" arbitrary: retries)
  case 0
  then show ?case by (subst (asm) loop_unfold) simp
next
  case (Suc k)
  from Suc.hyps(2) have "k = maxRetries - Suc retries" by simp
  note IH = Suc.hyps(1)[OF this]
  from Suc.prems show ?case
    by (subst (asm) loop_unfold) (auto split: if_splits sum.splits dest: IH)
qed

lemma loop_prompts:
  "GenerateContent p \<in> set (snd (translateText_loop remote tx fromLang toLang retries)) \<Longrightarrow>
   p = prompt tx fromLang toLang"
proof -
  assume "GenerateContent p \<in> set (snd (translateText_loop remote tx fromLang toLang retries))"
  from loop_actions[OF this] show ?thesis by simp
qed

lemma loop_no_emit:
  "Emit t m \<notin> set (snd (translateText_loop remote tx fromLang toLang retries))"
proof
  assume "Emit t m \<in> set (snd (translateText_loop remote tx fromLang toLang retries))"
  from loop_actions[OF this] show False by simp
qed

lemma loop_calls:
  "retries < maxRetries \<Longrightarrow>
   GenerateContent (prompt tx fromLang toLang) \<in> set (snd (translateText_loop remote tx fromLang toLang retries))"
  by (subst loop_unfold) (auto split: sum.splits)

lemma translateText_prompts:
  "{p. GenerateContent p \<in> set (snd (translateText remote tx fromLang toLang))} = {prompt tx fromLang toLang}"
proof -
  have "GenerateContent (prompt tx fromLang toLang) \<in> set (snd (translateText remote tx fromLang toLang))"
    unfolding translateText_def by (rule loop_calls) (simp add: maxRetries_def)
  moreover have "p = prompt tx fromLang toLang"
    if "GenerateContent p \<in> set (snd (translateText remote tx fromLang toLang))" for p
    using that unfolding translateText_def by (rule loop_prompts)
  ultimately show ?thesis by blast
qed

lemma speech_data_existing:
  assumes "map_of (rooms s) roomCode = Some a"
    and "fst (translateText remote tx (fst (languages (translationDirection (objects s a))))
              (snd (languages (translationDirection (objects s a))))) = Some t"
  shows "speech_data sid roomCode tx remote now s =
     (s\<lparr>objects := (objects s)(a := (objects s a)\<lparr>lastActivity := now\<rparr>)\<rparr>,
      snd (translateText remote tx (fst (languages (translationDirection (objects s a))))
              (snd (languages (translationDirection (objects s a))))) @
      [Emit (ToOthers roomCode sid) (TranslatedSpeech tx t sid)])"
  using assms by (simp add: speech_data_def Let_def)

section \<open>Joining and the user list\<close>

lemma join_users_Cons:
  "join_users sid n (u # us) =
     (if name u = n then u\<lparr>id' := sid\<rparr> # us else u # join_users sid n us)"
  by (cases "findIndex (\<lambda>u. name u = n) us") (simp_all add: join_users_def)

lemma join_users_Nil: "join_users sid n [] = [\<lparr>id' = sid, name = n\<rparr>]"
  by (simp add: join_users_def)

lemma join_users_absent:
  "n \<notin> name ` set us \<Longrightarrow> join_users sid n us = us @ [\<lparr>id' = sid, name = n\<rparr>]"
  by (induction us) (auto simp: join_users_Cons join_users_Nil)

lemma map_rename_absent:
  "n \<notin> name ` set us \<Longrightarrow> map (\<lambda>u. if name u = n then u\<lparr>id' := sid\<rparr> else u) us = us"
  by (induction us) auto

lemma join_users_present:
  "distinct (map name us) \<Longrightarrow> n \<in> name ` set us \<Longrightarrow>
   join_users sid n us = map (\<lambda>u. if name u = n then u\<lparr>id' := sid\<rparr> else u) us"
proof (induction us)
  case Nil
  then show ?case by simp
next
  case (Cons u us)
  show ?case
  proof (cases "name u = n")
    case True
    with Cons.prems have "n \<notin> name ` set us" by auto
    with True show ?thesis by (simp add: join_users_Cons map_rename_absent)
  next
    case False
    with Cons show ?thesis by (auto simp: join_users_Cons)
  qed
qed

lemma join_users_names:
  "map name (join_users sid n us) = (if n \<in> name ` set us then map name us else map name us @ [n])"
  by (induction us) (auto simp: join_users_Cons join_users_Nil)

lemma join_users_distinct:
  "distinct (map name us) \<Longrightarrow> distinct (map name (join_users sid n us))"
  by (simp add: join_users_names)

lemma join_users_member: "\<lparr>id' = sid, name = userName\<rparr> \<in> set (join_users sid userName us)"
proof (induction us)
  case Nil
  show ?case by (simp add: join_users_Nil)
next
  case (Cons u us)
  then show ?case by (cases u) (auto simp: join_users_Cons)
qed

section \<open>The cleanup loop\<close>

lemma map_of_cleanup_loop:
  "map_of (cleanup_loop now objs es m) c =
     (if list_ex (\<lambda>e. fst e = c \<and> expired now (objs (snd e))) es then None else map_of m c)"
  by (induction es arbitrary: m) (auto simp: delete_conv')

lemma cleanup_loop_filter:
  "cleanup_loop now objs es m =
     filter (\<lambda>e. \<not> list_ex (\<lambda>e'. fst e' = fst e \<and> expired now (objs (snd e'))) es) m"
proof (induction es arbitrary: m)
  case Nil
  show ?case by simp
next
  case (Cons e es)
  obtain c a where e: "e = (c, a)" by (cases e)
  show ?case
    by (auto simp: e Cons.IH AList.delete_eq intro!: filter_cong)
qed

lemma distinct_keys_list_ex:
  "distinct (map fst m) \<Longrightarrow> e \<in> set m \<Longrightarrow>
   list_ex (\<lambda>e'. fst e' = fst e \<and> P (snd e')) m \<longleftrightarrow> P (snd e)"
  by (auto simp: list_ex_iff dest: eq_key_imp_eq_value[of m "fst e" _ "snd e"])

lemma cleanup_rooms:
  assumes "distinct (map fst (rooms s))"
  shows "rooms (cleanup now s) = filter (\<lambda>e. \<not> expired now (objects s (snd e))) (rooms s)"
proof -
  have "\<And>e. e \<in> set (rooms s) \<Longrightarrow>
      list_ex (\<lambda>e'. fst e' = fst e \<and> expired now (objects s (snd e'))) (rooms s)
        \<longleftrightarrow> expired now (objects s (snd e))"
    using assms distinct_keys_list_ex[of "rooms s" _ "\<lambda>a. expired now (objects s a)"] by simp
  then show ?thesis
    by (simp add: cleanup_def cleanup_loop_filter cong: filter_cong)
qed

lemma room_of_cleanup:
  assumes "distinct (map fst (rooms s))"
  shows "room_of c (cleanup now s) =
     (case room_of c s of None \<Rightarrow> None | Some r \<Rightarrow> if expired now r then None else Some r)"
proof (cases "map_of (rooms s) c")
  case None
  then show ?thesis by (simp add: room_of_def cleanup_def map_of_cleanup_loop)
next
  case (Some a)
  then have "(c, a) \<in> set (rooms s)" by (rule map_of_SomeD)
  with assms have "list_ex (\<lambda>e. fst e = c \<and> expired now (objects s (snd e))) (rooms s)
      \<longleftrightarrow> expired now (objects s a)"
    using distinct_keys_list_ex[of "rooms s" "(c, a)" "\<lambda>a. expired now (objects s a)"] by simp
  with Some show ?thesis by (simp add: room_of_def cleanup_def map_of_cleanup_loop)
qed

section \<open>The departure check\<close>

lemma not_reconnected_in_place:
  assumes "distinct (map name us)" and "userIndex < length us"
    and "us ! userIndex = \<lparr>id' = sid, name = userName\<rparr>"
  shows "\<not> list_ex (\<lambda>u. name u = userName \<and> id' u \<noteq> sid) us"
proof
  assume "list_ex (\<lambda>u. name u = userName \<and> id' u \<noteq> sid) us"
  then obtain j where j: "j < length us" "name (us ! j) = userName" "id' (us ! j) \<noteq> sid"
    by (auto simp: list_ex_iff in_set_conv_nth)
  from assms(3) have "name (us ! userIndex) = userName" by simp
  with j(1,2) assms(1,2) have "j = userIndex"
    by (metis distinct_conv_nth length_map nth_map)
  with j(3) assms(3) show False by simp
qed

lemma removed_name_gone:
  assumes "distinct (map name us)" and "userIndex < length us"
  shows "name (us ! userIndex) \<notin> name ` set (take userIndex us @ drop (Suc userIndex) us)"
proof -
  have "map name us = map name (take userIndex us) @ name (us ! userIndex) # map name (drop (Suc userIndex) us)"
    using assms(2) by (metis id_take_nth_drop list.simps(9) map_append)
  with assms(1) have "distinct (map name (take userIndex us) @ name (us ! userIndex) # map name (drop (Suc userIndex) us))"
    by simp
  then show ?thesis by auto
qed

lemma departure_check_reconnected:
  "list_ex (\<lambda>u. name u = userName \<and> id' u \<noteq> sid) (users (objects s a)) \<Longrightarrow>
   departure_check a roomCode userIndex userName sid now s = (s, [])"
  by (simp add: departure_check_def Let_def)

lemma rejoin_cancels_departure:
  assumes "map_of (rooms s) roomCode = Some a" and "sid' \<noteq> sid"
  shows "departure_check a roomCode userIndex userName sid now
           (fst (join_room sid' roomCode userName t s)) =
         (fst (join_room sid' roomCode userName t s), [])"
proof -
  have m: "\<lparr>id' = sid', name = userName\<rparr> \<in> set (join_users sid' userName (users (objects s a)))"
    by (rule join_users_member)
  have "list_ex (\<lambda>u. name u = userName \<and> id' u \<noteq> sid)
      (join_users sid' userName (users (objects s a)))"
    unfolding list_ex_iff
  proof (rule bexI[OF _ m])
    show "name \<lparr>id' = sid', name = userName\<rparr> = userName \<and> id' \<lparr>id' = sid', name = userName\<rparr> \<noteq> sid"
      using assms(2) by simp
  qed
  with assms(1) have "list_ex (\<lambda>u. name u = userName \<and> id' u \<noteq> sid)
      (users (objects (fst (join_room sid' roomCode userName t s)) a))"
    by (simp add: join_room_def Let_def)
  then show ?thesis by (rule departure_check_reconnected)
qed

section \<open>The representation invariant holds in every run\<close>

lemma distinct_names_splice:
  "distinct (map name us) \<Longrightarrow> distinct (map name (splice i n us))"
proof -
  assume d: "distinct (map name us)"
  have "map name us = map name (take i us) @ map name (drop i us)"
    by (metis append_take_drop_id map_append)
  with d have "distinct (map name (take i us) @ map name (drop i us))" by simp
  moreover have "set (drop (i + n) us) \<subseteq> set (drop i us)"
    by (metis add.commute drop_drop set_drop_subset)
  moreover have "distinct (map name (drop (i + n) us))"
    using d by (simp add: distinct_map distinct_drop) (metis inj_on_subset set_drop_subset)
  ultimately show ?thesis
    by (auto simp: splice_def)
qed

lemma well_formed_create_room: "well_formed s \<Longrightarrow> well_formed (fst (create_room direction random now now' s))"
  by (simp add: well_formed_def create_room_def Let_def distinct_update)

lemma well_formed_join_room: "well_formed s \<Longrightarrow> well_formed (fst (join_room sid roomCode userName now s))"
  by (auto simp: well_formed_def join_room_def Let_def join_users_distinct split: option.splits)

lemma well_formed_heartbeat: "well_formed s \<Longrightarrow> well_formed (fst (heartbeat sid roomCode now s))"
  by (auto simp: well_formed_def heartbeat_def split: option.splits)

lemma well_formed_speech_data: "well_formed s \<Longrightarrow> well_formed (fst (speech_data sid roomCode tx remote now s))"
  by (auto simp: well_formed_def speech_data_def Let_def split: option.splits)

lemma well_formed_disconnect: "well_formed s \<Longrightarrow> well_formed (fst (disconnect sid now s))"
  by (auto simp: well_formed_def disconnect_def Let_def split: option.splits)

lemma well_formed_departure_check:
  "well_formed s \<Longrightarrow> well_formed (fst (departure_check a roomCode userIndex userName sid now s))"
  by (auto simp: well_formed_def departure_check_def Let_def distinct_names_splice)

lemma well_formed_empty_room_check: "well_formed s \<Longrightarrow> well_formed (empty_room_check roomCode s)"
  by (auto simp: well_formed_def empty_room_check_def distinct_delete split: option.splits)

lemma well_formed_cleanup: "well_formed s \<Longrightarrow> well_formed (cleanup now s)"
  by (simp add: well_formed_def cleanup_def cleanup_loop_filter distinct_map_filter)

lemma well_formed_timers [simp]: "well_formed (s\<lparr>timers := ts\<rparr>) = well_formed s"
  by (simp add: well_formed_def)

lemma well_formed_fire:
  assumes "well_formed s" and "fire i now s = Some (s', out)"
  shows "well_formed s'"
proof -
  let ?s0 = "s\<lparr>timers := take i (timers s) @ drop (Suc i) (timers s)\<rparr>"
  have w0: "well_formed ?s0" using assms(1) by simp
  show ?thesis
  proof (cases "snd (timers s ! i)")
    case (DepartureCheck a roomCode userIndex userName sid)
    with assms(2) have "s' = fst (departure_check a roomCode userIndex userName sid now ?s0)"
      by (auto simp: fire_def Let_def split: if_splits)
    with w0 show ?thesis by (simp add: well_formed_departure_check)
  next
    case (EmptyRoomCheck roomCode)
    with assms(2) have "s' = empty_room_check roomCode ?s0"
      by (auto simp: fire_def Let_def split: if_splits)
    with w0 show ?thesis by (simp add: well_formed_empty_room_check)
  next
    case RoomCleanup
    with assms(2) have "s' = (cleanup now ?s0)\<lparr>timers := timers ?s0 @ [(now + 1800000, RoomCleanup)]\<rparr>"
      by (auto simp: fire_def Let_def split: if_splits)
    with w0 show ?thesis by (simp add: well_formed_cleanup)
  qed
qed

lemma well_formed_step: "well_formed s \<Longrightarrow> step now e s = Some (s', out) \<Longrightarrow> well_formed s'"
proof (cases e)
  case (CreateRoom d r n')
  then show "well_formed s \<Longrightarrow> step now e s = Some (s', out) \<Longrightarrow> well_formed s'"
    using well_formed_create_room[of s d r now n'] by auto
next
  case (JoinRoom sid c n)
  then show "well_formed s \<Longrightarrow> step now e s = Some (s', out) \<Longrightarrow> well_formed s'"
    using well_formed_join_room[of s sid c n now] by auto
next
  case (Heartbeat sid c)
  then show "well_formed s \<Longrightarrow> step now e s = Some (s', out) \<Longrightarrow> well_formed s'"
    using well_formed_heartbeat[of s sid c now] by auto
next
  case (SpeechData sid c tx r)
  then show "well_formed s \<Longrightarrow> step now e s = Some (s', out) \<Longrightarrow> well_formed s'"
    using well_formed_speech_data[of s sid c tx r now] by auto
next
  case (Disconnect sid)
  then show "well_formed s \<Longrightarrow> step now e s = Some (s', out) \<Longrightarrow> well_formed s'"
    using well_formed_disconnect[of s sid now] by auto
next
  case (Timeout i)
  then show "well_formed s \<Longrightarrow> step now e s = Some (s', out) \<Longrightarrow> well_formed s'"
    using well_formed_fire[of s i now s' out] by auto
qed (auto simp: well_formed_def)

lemma well_formed_exec: "well_formed s \<Longrightarrow> exec es s = Some (s', out) \<Longrightarrow> well_formed s'"
proof (induction es arbitrary: s out)
  case Nil
  then show ?case by simp
next
  case (Cons e es)
  obtain now ev where e: "e = (now, ev)" by (cases e)
  from Cons.prems(2) obtain s1 out1 out2 where
    st: "step now ev s = Some (s1, out1)" and ex: "exec es s1 = Some (s', out2)"
    by (auto simp: e split: option.splits)
  from well_formed_step[OF Cons.prems(1) st] have "well_formed s1" .
  from Cons.IH[OF this ex] show ?case .
qed

lemma well_formed_start: "well_formed (start t0)"
  by (simp add: well_formed_def start_def blank_def)

lemma run_well_formed: "run es = Some s \<Longrightarrow> well_formed s"
  using well_formed_exec[OF well_formed_start, of es 0 s] by (auto simp: run_def)

section \<open>Evaluating runs\<close>

lemmas run_simps = run_def emitted_def after_def joined_run_def
  create_room_def join_room_def join_users_def heartbeat_def disconnect_def departure_check_def
  fire_def empty_room_check_def cleanup_def expired_def splice_def start_def room_of_def
  generateRoomCode_def toString.simps digit_def Let_def check_room_def blank_def

text \<open>
  In a room of two where both leave within 20 seconds, the second departure check splices
  at position 1 of a list of one and removes nothing: B's entry stays though no socket is
  in the channel, no empty-room check is scheduled, and the cleanup interval, which asks for
  an empty user list, will not delete the room.
\<close>

lemma both_leave_ghost_entry:
  "map_option users (Option.bind (run both_leave_run) (room_of ''100000'')) =
     Some [\<lparr>id' = ''sb'', name = ''B''\<rparr>]
   \<and> map_option (members ''100000'') (run both_leave_run) = Some {}
   \<and> map_option timers (run both_leave_run) = Some [(1800000, RoomCleanup)]"
  by (simp add: both_leave_run_def run_simps members_def insert_Diff_if)

section \<open>The claims\<close>

text \<open>
  Claim C1 says that the departure check removes exactly the entry of the disconnected
  user and no other entry, whatever happened to the user list since the disconnect.  The
  code splices at the index found at disconnect time.  In the run below A's check (position
  0) shortens the list, so that B's check, at its recorded position 1, removes the entry of
  C, who is connected: the announcement that B left still lists B, and the room keeps B's
  entry and has lost C's, while C's socket is the one left in the channel.
\<close>

theorem stale_index_removes_other_user: "map_option (drop 7) (emitted stale_index_run) =
     Some [Emit (ToRoom ''100000'')
             (UserLeft ''sa'' ''A'' [\<lparr>id' = ''sb'', name = ''B''\<rparr>, \<lparr>id' = ''sc'', name = ''C''\<rparr>]),
           Emit (ToRoom ''100000'') (UserLeft ''sb'' ''B'' [\<lparr>id' = ''sb'', name = ''B''\<rparr>])]
   \<and> map_option users (Option.bind (run stale_index_run) (room_of ''100000'')) =
     Some [\<lparr>id' = ''sb'', name = ''B''\<rparr>]
   \<and> map_option (members ''100000'') (run stale_index_run) = Some {''sc''}"
  by (simp add: stale_index_run_def run_simps members_def insert_Diff_if)

text \<open>
  Claim C2: when the remote call fails on every attempt, \<open>translateText\<close> makes exactly three
  attempts, waits 1000 ms after the first and 2000 ms after the second, and returns the
  placeholder string carrying the message of the last error.  The function is total and
  its result is a string, never \<open>undefined\<close> and never an exception.
\<close>

theorem translateText_all_attempts_fail:
  assumes "\<And>k. k < maxRetries \<Longrightarrow> remote k (prompt text fromLang toLang) = Inl (err k)"
  shows "translateText remote text fromLang toLang =
     (Some (''[Translation unavailable: '' @ err 2 @ '']''),
      [GenerateContent (prompt text fromLang toLang), Delay 1000,
       GenerateContent (prompt text fromLang toLang), Delay 2000,
       GenerateContent (prompt text fromLang toLang)])"
proof -
  let ?p = "prompt text fromLang toLang"
  have r0: "remote 0 ?p = Inl (err 0)" and r1: "remote (Suc 0) ?p = Inl (err (Suc 0))"
    and r2: "remote (Suc (Suc 0)) ?p = Inl (err 2)" using assms[of 2] assms[of 1] assms[of 0]
    by (simp_all add: numeral_2_eq_2 maxRetries_def)
  have l2: "translateText_loop remote text fromLang toLang (Suc (Suc 0)) =
    (Some (''[Translation unavailable: '' @ err 2 @ '']''), [GenerateContent ?p])"
    using r2 by (simp add: loop_last maxRetries_def)
  have l1: "translateText_loop remote text fromLang toLang (Suc 0) =
    (Some (''[Translation unavailable: '' @ err 2 @ '']''), [GenerateContent ?p, Delay 2000, GenerateContent ?p])"
    using r1 by (simp add: loop_retry maxRetries_def l2)
  show ?thesis unfolding translateText_def
    using r0 by (simp add: loop_retry maxRetries_def l1)
qed

theorem translateText_all_attempts_fail_witness: "translateText (\<lambda>k p. Inl ''quota exceeded'') ''Hello'' ''English'' ''Hindi'' =
     (Some ''[Translation unavailable: quota exceeded]'',
      [GenerateContent (prompt ''Hello'' ''English'' ''Hindi''), Delay 1000,
       GenerateContent (prompt ''Hello'' ''English'' ''Hindi''), Delay 2000,
       GenerateContent (prompt ''Hello'' ''English'' ''Hindi'')])"
  using translateText_all_attempts_fail[of "\<lambda>k p. Inl ''quota exceeded''" "''Hello''" "''English''" "''Hindi''" "\<lambda>k. ''quota exceeded''"]
  by simp

text \<open>
  Claim C3: a \<open>join-room\<close> on an existing room whose list already has the user name
  overwrites that entry's connection id with the new socket id and leaves the number of
  users unchanged; when the name is not present it appends exactly one entry.  In both cases
  \<open>lastActivity\<close> becomes the time of the join and no name is listed twice.  That the
  names were distinct before is part of the invariant \<open>well_formed\<close>, which holds after
  every run (\<open>run_well_formed\<close>).
\<close>

theorem join_room_existing:
  assumes "map_of (rooms s) roomCode = Some a"
    and "distinct (map name (users (objects s a)))"
    and "join_room sid roomCode userName now s = (s', out)"
  shows "users (objects s' a) =
           (if userName \<in> name ` set (users (objects s a))
            then map (\<lambda>u. if name u = userName then u\<lparr>id' := sid\<rparr> else u) (users (objects s a))
            else users (objects s a) @ [\<lparr>id' = sid, name = userName\<rparr>])
       \<and> length (users (objects s' a)) =
           (if userName \<in> name ` set (users (objects s a))
            then length (users (objects s a)) else length (users (objects s a)) + 1)
       \<and> lastActivity (objects s' a) = now
       \<and> distinct (map name (users (objects s' a)))
       \<and> rooms s' = rooms s
       \<and> out = [Emit (ToSocket sid)
                   (RoomJoined roomCode (translationDirection (objects s a)) (users (objects s' a))),
                 Emit (ToRoom roomCode) (UserJoined sid userName (users (objects s' a)))]"
proof -
  let ?us = "users (objects s a)"
  from assms(1,3) have s': "s' = s\<lparr>objects := (objects s)
        (a := (objects s a)\<lparr>users := join_users sid userName ?us, lastActivity := now\<rparr>),
      currentRoom := (currentRoom s)(sid := Some roomCode),
      channels := (channels s)(roomCode := insert sid (channels s roomCode))\<rparr>"
    and out: "out = [Emit (ToSocket sid)
         (RoomJoined roomCode (translationDirection (objects s a)) (join_users sid userName ?us)),
        Emit (ToRoom roomCode) (UserJoined sid userName (join_users sid userName ?us))]"
    by (auto simp: join_room_def Let_def)
  have us': "users (objects s' a) = join_users sid userName ?us" by (simp add: s')
  have eq: "join_users sid userName ?us =
           (if userName \<in> name ` set ?us
            then map (\<lambda>u. if name u = userName then u\<lparr>id' := sid\<rparr> else u) ?us
            else ?us @ [\<lparr>id' = sid, name = userName\<rparr>])"
    using assms(2) by (simp add: join_users_present join_users_absent)
  have len: "length (join_users sid userName ?us) =
      (if userName \<in> name ` set ?us then length ?us else length ?us + 1)"
    by (subst eq) simp
  have dist: "distinct (map name (join_users sid userName ?us))"
    using assms(2) by (rule join_users_distinct)
  show ?thesis
    using eq len dist out by (simp add: us') (simp add: s')
qed

theorem join_room_existing_witness:
  "map_of (rooms (after joined_run)) ''100000'' = Some 0
   \<and> distinct (map name (users (objects (after joined_run) 0)))
   \<and> users (objects (after joined_run) 0) = [\<lparr>id' = ''sa'', name = ''A''\<rparr>, \<lparr>id' = ''sb'', name = ''B''\<rparr>]
   \<and> users (objects (fst (join_room ''sa2'' ''100000'' ''A'' 5000 (after joined_run))) 0) =
       [\<lparr>id' = ''sa2'', name = ''A''\<rparr>, \<lparr>id' = ''sb'', name = ''B''\<rparr>]
   \<and> lastActivity (objects (fst (join_room ''sa2'' ''100000'' ''A'' 5000 (after joined_run))) 0) = 5000
   \<and> snd (join_room ''sa2'' ''100000'' ''A'' 5000 (after joined_run)) =
       [Emit (ToSocket ''sa2'')
          (RoomJoined ''100000'' (JStr ''en-to-hi'')
             [\<lparr>id' = ''sa2'', name = ''A''\<rparr>, \<lparr>id' = ''sb'', name = ''B''\<rparr>]),
        Emit (ToRoom ''100000'')
          (UserJoined ''sa2'' ''A'' [\<lparr>id' = ''sa2'', name = ''A''\<rparr>, \<lparr>id' = ''sb'', name = ''B''\<rparr>])]"
  using join_room_existing[of "after joined_run" "''100000''" 0 "''sa2''" "''A''" 5000
      "fst (join_room ''sa2'' ''100000'' ''A'' 5000 (after joined_run))"
      "snd (join_room ''sa2'' ''100000'' ''A'' 5000 (after joined_run))"]
  by (simp add: run_simps)

text \<open>
  Claim C4 says that a user who rejoins under a new connection id within the 20 seconds is
  never announced as having left and never loses the entry.  In the run below N rejoins one
  second after the disconnect.  Y's departure check, splicing at the position 1 it recorded
  before X's entry went, removes N's entry; N's own check then finds no entry of that name
  and announces that N left.  Where no other check interferes, the rejoin does cancel the
  check (\<open>rejoin_cancels_departure\<close>).
\<close>

theorem rejoined_user_reported_left: "map_option (drop 9) (emitted rejoin_run) =
     Some [Emit (ToRoom ''100000'')
             (UserLeft ''sx'' ''X'' [\<lparr>id' = ''sy'', name = ''Y''\<rparr>, \<lparr>id' = ''s2'', name = ''N''\<rparr>]),
           Emit (ToRoom ''100000'') (UserLeft ''sy'' ''Y'' [\<lparr>id' = ''sy'', name = ''Y''\<rparr>]),
           Emit (ToRoom ''100000'') (UserLeft ''s1'' ''N'' [\<lparr>id' = ''sy'', name = ''Y''\<rparr>])]
   \<and> map_option users (Option.bind (run rejoin_run) (room_of ''100000'')) =
     Some [\<lparr>id' = ''sy'', name = ''Y''\<rparr>]
   \<and> map_option (members ''100000'') (run rejoin_run) = Some {''s2''}"
  by (simp add: rejoin_run_def run_simps members_def insert_Diff_if)

text \<open>
  Claim C5 says that the departure check also updates \<open>lastActivity\<close>.  It does not: after
  the check has fired at time 30000 and removed the user, the room still has the
  \<open>lastActivity\<close> 2000 of the join.
\<close>

theorem departure_keeps_lastActivity: "Option.bind (run (leave_run @ [(30000, Timeout 1)])) (room_of ''100000'') =
     Some \<lparr>translationDirection = JStr ''en-to-hi'', users = [], createdAt = 1000, lastActivity = 2000\<rparr>
   \<and> map_option (drop 3) (emitted (leave_run @ [(30000, Timeout 1)])) =
     Some [Emit (ToRoom ''100000'') (UserLeft ''sa'' ''A'' [])]"
  by (simp add: leave_run_def run_simps)

text \<open>
  Claim C5 as amended: for a disconnected user who has not rejoined and whose entry still
  stands at the position recorded at the disconnect, the departure check removes that entry
  and no other, emits exactly one \<open>user-left\<close> event whose user list no longer has the user,
  and leaves \<open>lastActivity\<close> as it was.  The names of the room are distinct, as they are
  after every run (\<open>run_well_formed\<close>).
\<close>

theorem departure_check_removes_user:
  assumes "i < length (timers s)"
    and "timers s ! i = (due, DepartureCheck a roomCode userIndex userName sid)"
    and "due \<le> now"
    and "userIndex < length (users (objects s a))"
    and "users (objects s a) ! userIndex = \<lparr>id' = sid, name = userName\<rparr>"
    and "distinct (map name (users (objects s a)))"
  shows "\<exists>s'. fire i now s =
           Some (s', [Emit (ToRoom roomCode) (UserLeft sid userName (users (objects s' a)))])
       \<and> users (objects s' a) =
           take userIndex (users (objects s a)) @ drop (Suc userIndex) (users (objects s a))
       \<and> userName \<notin> name ` set (users (objects s' a))
       \<and> lastActivity (objects s' a) = lastActivity (objects s a)"
proof -
  let ?us = "users (objects s a)"
  let ?us' = "take userIndex ?us @ drop (Suc userIndex) ?us"
  let ?s0 = "s\<lparr>timers := take i (timers s) @ drop (Suc i) (timers s)\<rparr>"
  have nr: "\<not> list_ex (\<lambda>u. name u = userName \<and> id' u \<noteq> sid) ?us"
    using assms(6,4,5) by (rule not_reconnected_in_place)
  have gone: "userName \<notin> name ` set ?us'"
    using removed_name_gone[OF assms(6,4)] assms(5) by simp
  obtain s' where f: "departure_check a roomCode userIndex userName sid now ?s0 = (s', [Emit (ToRoom roomCode) (UserLeft sid userName ?us')])"
    and o: "objects s' = (objects s)(a := (objects s a)\<lparr>users := ?us'\<rparr>)"
    using nr by (auto simp: departure_check_def Let_def splice_def)
  have "fire i now s = Some (departure_check a roomCode userIndex userName sid now ?s0)"
    using assms(1-3) by (simp add: fire_def Let_def)
  with f o gone show ?thesis by simp
qed

theorem departure_check_removes_user_witness:
  "1 < length (timers (after leave_run))
   \<and> timers (after leave_run) ! 1 = (30000, DepartureCheck 0 ''100000'' 0 ''A'' ''sa'')
   \<and> (30000 :: int) \<le> 30000
   \<and> 0 < length (users (objects (after leave_run) 0))
   \<and> users (objects (after leave_run) 0) ! 0 = \<lparr>id' = ''sa'', name = ''A''\<rparr>
   \<and> distinct (map name (users (objects (after leave_run) 0)))
   \<and> lastActivity (objects (after leave_run) 0) = 2000
   \<and> map_option snd (fire 1 30000 (after leave_run)) =
       Some [Emit (ToRoom ''100000'') (UserLeft ''sa'' ''A'' [])]
   \<and> map_option (users \<circ> (\<lambda>s. objects s 0) \<circ> fst) (fire 1 30000 (after leave_run)) = Some []
   \<and> map_option (lastActivity \<circ> (\<lambda>s. objects s 0) \<circ> fst) (fire 1 30000 (after leave_run)) = Some 2000"
  using departure_check_removes_user[of 1 "after leave_run" 30000 0 "''100000''" 0 "''A''" "''sa''" 30000]
  by (simp add: leave_run_def run_simps)

text \<open>
  Claim C6 includes rooms that were created and never joined.  Such a room has no user for
  more than 5 minutes and stays: \<open>check-room\<close> answers \<open>exists: true\<close> 300001 ms after the
  creation and still after the cleanup sweep at 30 minutes, and no timer but the cleanup
  interval is pending.
\<close>

theorem unjoined_room_outlives_long_grace: "emitted idle_run =
     Some [Emit HttpReply (RoomCode ''100000''), Emit HttpReply (RoomExists True),
           Emit HttpReply (RoomExists True)]
   \<and> map_option timers (run idle_run) = Some [(3600000, RoomCleanup)]
   \<and> map_option users (Option.bind (run idle_run) (room_of ''100000'')) = Some []"
  by (simp add: idle_run_def run_simps)

text \<open>
  Claim C6 as amended: when a departure check leaves the user list of its room empty, an
  empty-room check is scheduled 300000 ms later; when that check fires and the room
  registered under the code has no user, the room is deleted from the store and
  \<open>check-room\<close> for its code answers \<open>exists: false\<close>.  Creating a room schedules no
  timer, so a room that was never joined gets no such check.
\<close>

theorem empty_room_deleted_after_long_grace:
  assumes "i < length (timers s)"
    and "timers s ! i = (due, DepartureCheck a roomCode userIndex userName sid)"
    and "due \<le> now"
    and "fire i now s = Some (s1, out)"
    and "users (objects s1 a) = []"
  shows "(now + 300000, EmptyRoomCheck roomCode) \<in> set (timers s1)
       \<and> (\<forall>s2 j now' r.
             j < length (timers s2) \<and> timers s2 ! j = (now + 300000, EmptyRoomCheck roomCode)
             \<and> now + 300000 \<le> now' \<and> room_of roomCode s2 = Some r \<and> users r = []
             \<longrightarrow> (\<exists>s3. fire j now' s2 = Some (s3, []) \<and> \<not> check_room roomCode s3
                       \<and> rooms s3 = AList.delete roomCode (rooms s2)))
       \<and> (\<forall>direction random t t' s0. timers (fst (create_room direction random t t' s0)) = timers s0)"
proof -
  let ?s0 = "s\<lparr>timers := take i (timers s) @ drop (Suc i) (timers s)\<rparr>"
  have f: "fire i now s = Some (departure_check a roomCode userIndex userName sid now ?s0)"
    using assms(1-3) by (simp add: fire_def Let_def)
  with assms(4) have dc: "departure_check a roomCode userIndex userName sid now ?s0 = (s1, out)"
    by simp
  have nr: "\<not> list_ex (\<lambda>u. name u = userName \<and> id' u \<noteq> sid) (users (objects s a))"
  proof
    assume r: "list_ex (\<lambda>u. name u = userName \<and> id' u \<noteq> sid) (users (objects s a))"
    with dc have "s1 = ?s0" by (simp add: departure_check_def Let_def)
    with assms(5) have "users (objects s a) = []" by simp
    with r show False by simp
  qed
  have A: "(now + 300000, EmptyRoomCheck roomCode) \<in> set (timers s1)"
    using dc nr assms(5) by (auto simp: departure_check_def Let_def split: if_splits)
  have B: "\<exists>s3. fire j now' s2 = Some (s3, []) \<and> \<not> check_room roomCode s3
                       \<and> rooms s3 = AList.delete roomCode (rooms s2)"
    if "j < length (timers s2)" "timers s2 ! j = (now + 300000, EmptyRoomCheck roomCode)"
       "now + 300000 \<le> now'" "room_of roomCode s2 = Some r" "users r = []" for s2 j now' r
    using that
    by (auto simp: fire_def Let_def empty_room_check_def room_of_def check_room_def delete_conv')
  have C: "timers (fst (create_room direction random t t' s0)) = timers s0" for direction random t t' s0
    by (simp add: create_room_def Let_def)
  from A B C show ?thesis by blast
qed

theorem empty_room_deleted_after_long_grace_witness:
  "1 < length (timers (after leave_run))
   \<and> timers (after leave_run) ! 1 = (30000, DepartureCheck 0 ''100000'' 0 ''A'' ''sa'')
   \<and> (30000 :: int) \<le> 30000
   \<and> fire 1 30000 (after leave_run) =
       Some (after (leave_run @ [(30000, Timeout 1)]), [Emit (ToRoom ''100000'') (UserLeft ''sa'' ''A'' [])])
   \<and> users (objects (after (leave_run @ [(30000, Timeout 1)])) 0) = []
   \<and> timers (after (leave_run @ [(30000, Timeout 1)])) =
       [(1800000, RoomCleanup), (330000, EmptyRoomCheck ''100000'')]
   \<and> map_option users (room_of ''100000'' (after (leave_run @ [(30000, Timeout 1)]))) = Some []
   \<and> check_room ''100000'' (after (leave_run @ [(30000, Timeout 1)]))
   \<and> map_option (check_room ''100000'' \<circ> fst)
        (fire 1 330000 (after (leave_run @ [(30000, Timeout 1)]))) = Some False"
  using empty_room_deleted_after_long_grace[of 1 "after leave_run" 30000 0 "''100000''" 0 "''A''" "''sa''" 30000
     "after (leave_run @ [(30000, Timeout 1)])" "[Emit (ToRoom ''100000'') (UserLeft ''sa'' ''A'' [])]"]
  by (simp add: leave_run_def run_simps)

text \<open>
  Claim C7: a sweep of the cleanup interval deletes exactly the rooms whose idle time
  \<open>now - lastActivity\<close> exceeds 3600000 ms and whose user list is empty; every other room
  stays registered with its object unchanged.  The interval is armed again 1800000 ms
  after the sweep.  That the map holds every code once is part of the invariant
  \<open>well_formed\<close>, which holds after every run (\<open>run_well_formed\<close>).
\<close>

theorem cleanup_sweep:
  assumes "i < length (timers s)" and "timers s ! i = (due, RoomCleanup)" and "due \<le> now"
    and "distinct (map fst (rooms s))"
  shows "\<exists>s'. fire i now s = Some (s', []) \<and>
      (\<forall>c. room_of c s' =
        (case room_of c s of
           None \<Rightarrow> None
         | Some r \<Rightarrow> if now - lastActivity r > 3600000 \<and> users r = [] then None else Some r)) \<and>
      rooms s' =
        filter (\<lambda>e. \<not> (now - lastActivity (objects s (snd e)) > 3600000 \<and>
                         users (objects s (snd e)) = [])) (rooms s) \<and>
      objects s' = objects s \<and>
      timers s' = take i (timers s) @ drop (Suc i) (timers s) @ [(now + 1800000, RoomCleanup)]"
proof -
  let ?s0 = "s\<lparr>timers := take i (timers s) @ drop (Suc i) (timers s)\<rparr>"
  let ?s' = "(cleanup now ?s0)\<lparr>timers := timers ?s0 @ [(now + 1800000, RoomCleanup)]\<rparr>"
  have f: "fire i now s = Some (?s', [])"
    using assms(1-3) by (simp add: fire_def Let_def)
  have d: "distinct (map fst (rooms ?s0))" using assms(4) by simp
  have r: "room_of c ?s' =
        (case room_of c s of
           None \<Rightarrow> None
         | Some r \<Rightarrow> if now - lastActivity r > 3600000 \<and> users r = [] then None else Some r)" for c
  proof -
    have "room_of c ?s' = room_of c (cleanup now ?s0)" by (simp add: room_of_def)
    also have "\<dots> = (case room_of c ?s0 of None \<Rightarrow> None
        | Some r \<Rightarrow> if expired now r then None else Some r)"
      by (rule room_of_cleanup[OF d])
    also have "room_of c ?s0 = room_of c s" by (simp add: room_of_def)
    finally show ?thesis by (simp add: expired_def split: option.splits)
  qed
  have l: "rooms ?s' =
        filter (\<lambda>e. \<not> (now - lastActivity (objects s (snd e)) > 3600000 \<and>
                         users (objects s (snd e)) = [])) (rooms s)"
    using cleanup_rooms[OF d, of now] by (simp add: expired_def)
  have o: "objects ?s' = objects s" by (simp add: cleanup_def)
  have t: "timers ?s' = take i (timers s) @ drop (Suc i) (timers s) @ [(now + 1800000, RoomCleanup)]"
    by simp
  from f r l o t show ?thesis by blast
qed

theorem cleanup_sweep_witness:
  "0 < length (timers (after sweep_run))
   \<and> timers (after sweep_run) ! 0 = (3600000, RoomCleanup)
   \<and> (3600000 :: int) \<le> 3601001
   \<and> distinct (map fst (rooms (after sweep_run)))
   \<and> rooms (after sweep_run) = [(''100000'', 0), (''550000'', 1), (''325000'', 2)]
   \<and> map_option lastActivity (room_of ''100000'' (after sweep_run)) = Some 1000
   \<and> map_option users (room_of ''100000'' (after sweep_run)) = Some []
   \<and> map_option lastActivity (room_of ''550000'' (after sweep_run)) = Some 3000
   \<and> map_option users (room_of ''550000'' (after sweep_run)) = Some [\<lparr>id' = ''sa'', name = ''A''\<rparr>]
   \<and> map_option lastActivity (room_of ''325000'' (after sweep_run)) = Some 3000000
   \<and> map_option users (room_of ''325000'' (after sweep_run)) = Some []
   \<and> map_option (rooms \<circ> fst) (fire 0 3601001 (after sweep_run)) = Some [(''550000'', 1), (''325000'', 2)]
   \<and> map_option (timers \<circ> fst) (fire 0 3601001 (after sweep_run)) = Some [(5401001, RoomCleanup)]"
  using cleanup_sweep[of 0 "after sweep_run" 3600000 3601001]
  by (simp add: sweep_run_def run_simps)

text \<open>
  Claim C8: \<open>speech-data\<close> for an existing room calls the gateway with English to Hindi when
  the direction is \<open>en-to-hi\<close> and with Hindi to English when it is \<open>hi-to-en\<close>, and with no
  other pair; it then emits the original text, the gateway's result and the sender's id to
  everyone in the room's channel but the sender, and emits nothing else.
\<close>

theorem speech_data_broadcasts_translation:
  assumes "map_of (rooms s) roomCode = Some a"
    and "translationDirection (objects s a) = JStr ''en-to-hi'' \<and> fromLang = ''English'' \<and> toLang = ''Hindi''
       \<or> translationDirection (objects s a) = JStr ''hi-to-en'' \<and> fromLang = ''Hindi'' \<and> toLang = ''English''"
  shows "\<exists>translatedText.
      fst (translateText remote tx fromLang toLang) = Some translatedText \<and>
      snd (speech_data sid roomCode tx remote now s) =
        snd (translateText remote tx fromLang toLang) @
        [Emit (ToOthers roomCode sid) (TranslatedSpeech tx translatedText sid)] \<and>
      {p. GenerateContent p \<in> set (snd (speech_data sid roomCode tx remote now s))} =
        {prompt tx fromLang toLang} \<and>
      {e. \<exists>t m. e = Emit t m \<and> e \<in> set (snd (speech_data sid roomCode tx remote now s))} =
        {Emit (ToOthers roomCode sid) (TranslatedSpeech tx translatedText sid)} \<and>
      (\<forall>ch. recipients ch (ToOthers roomCode sid) = ch roomCode - {sid})"
proof -
  from assms(2) have l: "languages (translationDirection (objects s a)) = (fromLang, toLang)"
    by (auto simp: languages_def)
  obtain t where t: "fst (translateText remote tx fromLang toLang) = Some t"
    using translateText_returns by blast
  have sd: "snd (speech_data sid roomCode tx remote now s) =
      snd (translateText remote tx fromLang toLang) @
      [Emit (ToOthers roomCode sid) (TranslatedSpeech tx t sid)]"
    using speech_data_existing[OF assms(1), of remote tx t sid now] t l by simp
  have noemit: "\<And>t m. Emit t m \<notin> set (snd (translateText remote tx fromLang toLang))"
    unfolding translateText_def by (rule loop_no_emit)
  have gen: "{p. GenerateContent p \<in> set (snd (speech_data sid roomCode tx remote now s))} =
        {prompt tx fromLang toLang}"
    using translateText_prompts[of remote tx fromLang toLang] by (auto simp: sd)
  have em: "{e. \<exists>t m. e = Emit t m \<and> e \<in> set (snd (speech_data sid roomCode tx remote now s))} =
        {Emit (ToOthers roomCode sid) (TranslatedSpeech tx t sid)}"
    using noemit by (auto simp: sd)
  from t sd gen em show ?thesis by auto
qed

theorem speech_data_broadcasts_translation_witness: "map_of (rooms (after joined_run)) ''100000'' = Some 0
   \<and> translationDirection (objects (after joined_run) 0) = JStr ''en-to-hi''
   \<and> translateText (\<lambda>k p. Inr '' namaste '') ''Hello'' ''English'' ''Hindi'' =
       (Some ''namaste'', [GenerateContent (prompt ''Hello'' ''English'' ''Hindi'')])
   \<and> snd (speech_data ''sa'' ''100000'' ''Hello'' (\<lambda>k p. Inr '' namaste '') 5000 (after joined_run)) =
       [GenerateContent (prompt ''Hello'' ''English'' ''Hindi''),
        Emit (ToOthers ''100000'' ''sa'') (TranslatedSpeech ''Hello'' ''namaste'' ''sa'')]
   \<and> recipients (channels (after joined_run)) (ToOthers ''100000'' ''sa'') = {''sb''}"
  using speech_data_broadcasts_translation[of "after joined_run" "''100000''" 0 "''English''" "''Hindi''"
      "\<lambda>k p. Inr '' namaste ''" "''Hello''" "''sa''" 5000]
  by (simp add: run_simps translateText_def loop_unfold maxRetries_def trim_def isWhiteSpace_def
        speech_data_def languages_def insert_Diff_if)

text \<open>
  Claim C9: when the generated code already keys a room, \<open>create-room\<close> replaces that entry
  by a fresh room (no user, the new timestamps, the direction of the request) under the same
  code, adds no key, leaves every other code alone and answers with the reused code.
\<close>

theorem create_room_collision:
  assumes "map_of (rooms s) (generateRoomCode random) = Some old"
    and "create_room direction random now now' s = (s', out)"
  shows "out = [Emit HttpReply (RoomCode (generateRoomCode random))]
       \<and> room_of (generateRoomCode random) s' =
           Some \<lparr>translationDirection = direction, users = [], createdAt = now, lastActivity = now'\<rparr>
       \<and> map fst (rooms s') = map fst (rooms s)
       \<and> (\<forall>c. c \<noteq> generateRoomCode random \<longrightarrow> map_of (rooms s') c = map_of (rooms s) c)
       \<and> timers s' = timers s"
proof -
  from assms(2) have s': "s' = s\<lparr>rooms := AList.update (generateRoomCode random) (nextAddr s) (rooms s),
            objects := (objects s)
              (nextAddr s := \<lparr>translationDirection = direction, users = [], createdAt = now,
                     lastActivity = now'\<rparr>),
            nextAddr := Suc (nextAddr s)\<rparr>"
    and out: "out = [Emit HttpReply (RoomCode (generateRoomCode random))]"
    by (auto simp: create_room_def Let_def)
  from assms(1) have "generateRoomCode random \<in> fst ` set (rooms s)"
    by (metis domI dom_map_of_conv_image_fst)
  then have keys: "map fst (rooms s') = map fst (rooms s)"
    by (simp add: s' update_keys)
  show ?thesis
    using out keys by (simp add: s' room_of_def update_conv')
qed

theorem create_room_collision_witness: "generateRoomCode 0 = ''100000''
   \<and> map_of (rooms (after joined_run)) (generateRoomCode 0) = Some 0
   \<and> users (objects (after joined_run) 0) = [\<lparr>id' = ''sa'', name = ''A''\<rparr>, \<lparr>id' = ''sb'', name = ''B''\<rparr>]
   \<and> snd (create_room (JStr ''hi-to-en'') 0 6000 6001 (after joined_run)) =
       [Emit HttpReply (RoomCode ''100000'')]
   \<and> room_of ''100000'' (fst (create_room (JStr ''hi-to-en'') 0 6000 6001 (after joined_run))) =
       Some \<lparr>translationDirection = JStr ''hi-to-en'', users = [], createdAt = 6000, lastActivity = 6001\<rparr>
   \<and> rooms (fst (create_room (JStr ''hi-to-en'') 0 6000 6001 (after joined_run))) = [(''100000'', 1)]"
  using create_room_collision[of "after joined_run" 0 0 "JStr ''hi-to-en''" 6000 6001
      "fst (create_room (JStr ''hi-to-en'') 0 6000 6001 (after joined_run))"
      "snd (create_room (JStr ''hi-to-en'') 0 6000 6001 (after joined_run))"]
  by (simp add: run_simps)

text \<open>
  Claim C10: for a room whose direction is anything but the string \<open>en-to-hi\<close>,
  \<open>speech-data\<close> translates from Hindi to English and emits no error; \<open>create-room\<close>
  stores whatever direction the request carries and answers with the room code.
\<close>

theorem other_direction_is_hindi_to_english:
  assumes "map_of (rooms s) roomCode = Some a"
    and "translationDirection (objects s a) \<noteq> JStr ''en-to-hi''"
  shows "\<exists>translatedText.
      fst (translateText remote tx ''Hindi'' ''English'') = Some translatedText \<and>
      snd (speech_data sid roomCode tx remote now s) =
        snd (translateText remote tx ''Hindi'' ''English'') @
        [Emit (ToOthers roomCode sid) (TranslatedSpeech tx translatedText sid)] \<and>
      {p. GenerateContent p \<in> set (snd (speech_data sid roomCode tx remote now s))} =
        {prompt tx ''Hindi'' ''English''} \<and>
      (\<forall>t m. Emit t (ErrorMsg m) \<notin> set (snd (speech_data sid roomCode tx remote now s))) \<and>
      snd (create_room direction random t0 t1 s0) =
        [Emit HttpReply (RoomCode (generateRoomCode random))] \<and>
      map_option translationDirection
        (room_of (generateRoomCode random) (fst (create_room direction random t0 t1 s0))) =
        Some direction"
proof -
  from assms(2) have l: "languages (translationDirection (objects s a)) = (''Hindi'', ''English'')"
    by (simp add: languages_def)
  obtain t where t: "fst (translateText remote tx ''Hindi'' ''English'') = Some t"
    using translateText_returns by blast
  have sd: "snd (speech_data sid roomCode tx remote now s) =
      snd (translateText remote tx ''Hindi'' ''English'') @
      [Emit (ToOthers roomCode sid) (TranslatedSpeech tx t sid)]"
    using speech_data_existing[OF assms(1), of remote tx t sid now] t l by simp
  have noemit: "\<And>t m. Emit t m \<notin> set (snd (translateText remote tx ''Hindi'' ''English''))"
    unfolding translateText_def by (rule loop_no_emit)
  have gen: "{p. GenerateContent p \<in> set (snd (speech_data sid roomCode tx remote now s))} =
        {prompt tx ''Hindi'' ''English''}"
    using translateText_prompts[of remote tx "''Hindi''" "''English''"] by (auto simp: sd)
  have ne: "Emit t' (ErrorMsg m) \<notin> set (snd (speech_data sid roomCode tx remote now s))" for t' m
    using noemit by (simp add: sd)
  have cr: "snd (create_room direction random t0 t1 s0) =
        [Emit HttpReply (RoomCode (generateRoomCode random))]"
    by (simp add: create_room_def Let_def)
  have st: "map_option translationDirection
        (room_of (generateRoomCode random) (fst (create_room direction random t0 t1 s0))) =
        Some direction"
    by (simp add: create_room_def Let_def room_of_def update_conv')
  from t sd gen ne cr st show ?thesis by blast
qed

theorem other_direction_is_hindi_to_english_witness:
  "map_of (rooms (after undirected_run)) ''100000'' = Some 0
   \<and> translationDirection (objects (after undirected_run) 0) = JUndefined
   \<and> JUndefined \<noteq> JStr ''en-to-hi''
   \<and> snd (speech_data ''sa'' ''100000'' ''namaste'' (\<lambda>k p. Inr ''Hello'') 5000 (after undirected_run)) =
       [GenerateContent (prompt ''namaste'' ''Hindi'' ''English''),
        Emit (ToOthers ''100000'' ''sa'') (TranslatedSpeech ''namaste'' ''Hello'' ''sa'')]
   \<and> run undirected_run \<noteq> None"
  using other_direction_is_hindi_to_english[of "after undirected_run" "''100000''" 0
      "\<lambda>k p. Inr ''Hello''" "''namaste''" "''sa''" 5000 JUndefined 0 1000 1000 "start 0"]
  by (simp add: undirected_run_def run_simps translateText_def loop_unfold maxRetries_def trim_def isWhiteSpace_def
        speech_data_def languages_def)

end
